theory Spec2Isabelle
  imports Main "HOL-Library.AList"
begin

section \<open>Python values, exceptions and strings\<close>

text \<open>
  The checker of \<^verbatim>\<open>onion_site_checker.py\<close> keeps its accumulated set as whatever
  \<^verbatim>\<open>json.load\<close> returned, so the model works on Python values. A dict is an
  association list read with \<open>map_of\<close> and written with \<open>AList.update\<close> (insertion
  order kept, a present key overwritten in place). Floats are only carried, never
  computed with: their type is the parameter \<open>'f\<close>. Strings are \<open>char list\<close>, one
  \<open>char\<close> per code point below 256.
\<close>

datatype 'f pyval =
    PNone
  | PBool bool
  | PInt int
  | PFloat 'f
  | PStr string
  | PList "'f pyval list"
  | PDict "(string \<times> 'f pyval) list"

datatype exn =
    KeyboardInterrupt
  | IOError
  | JSONDecodeError
  | RequestsTimeout
  | RequestsConnectionError
  | TypeError
  | KeyError
  | AttributeError
  | ValueError
  | OtherException

text \<open>\<^verbatim>\<open>except Exception\<close> catches every exception of the model but the interrupt.\<close>

definition is_Exception :: "exn \<Rightarrow> bool" where
  "is_Exception e = (e \<noteq> KeyboardInterrupt)"

definition startswith :: "string \<Rightarrow> string \<Rightarrow> bool" where
  "startswith s p = (take (length p) s = p)"

definition endswith :: "string \<Rightarrow> string \<Rightarrow> bool" where
  "endswith s p = (length p \<le> length s \<and> drop (length s - length p) s = p)"

text \<open>\<open>str_contains sub s\<close> is Python's \<^verbatim>\<open>sub in s\<close>.\<close>

fun str_contains :: "string \<Rightarrow> string \<Rightarrow> bool" where
  "str_contains sub [] = (sub = [])"
| "str_contains sub (c # cs) = (startswith (c # cs) sub \<or> str_contains sub cs)"

definition lstrip_chars :: "string \<Rightarrow> string \<Rightarrow> string" where
  "lstrip_chars chars s = dropWhile (\<lambda>c. c \<in> set chars) s"

text \<open>The code points below 256 for which \<^verbatim>\<open>str.isspace\<close> holds.\<close>

definition whitespace :: string where
  "whitespace = [CHR 0x09, CHR 0x0A, CHR 0x0B, CHR 0x0C, CHR 0x0D, CHR 0x1C, CHR 0x1D,
     CHR 0x1E, CHR 0x1F, CHR 0x20, CHR 0x85, CHR 0xA0]"

definition strip :: "string \<Rightarrow> string" where
  "strip s = rev (lstrip_chars whitespace (rev (lstrip_chars whitespace s)))"

text \<open>\<^verbatim>\<open>str(n)\<close> for an integer, used by the f-string of the listing URL.\<close>

function str_nat :: "nat \<Rightarrow> string" where
  "str_nat n = (if n < 10 then [char_of (48 + n)]
                else str_nat (n div 10) @ [char_of (48 + n mod 10)])"
  by pat_completeness auto
termination
  by (relation "measure (\<lambda>n. n)") auto

declare str_nat.simps [simp del]

definition str_int :: "int \<Rightarrow> string" where
  "str_int i = (if i < 0 then CHR ''-'' # str_nat (nat (- i)) else str_nat (nat i))"

text \<open>\<^verbatim>\<open>d[k]\<close> on a dict, and \<^verbatim>\<open>len\<close> of a value.\<close>

definition dict_getitem :: "(string \<times> 'f pyval) list \<Rightarrow> string \<Rightarrow> exn + 'f pyval" where
  "dict_getitem d k = (case map_of d k of None \<Rightarrow> Inl KeyError | Some v \<Rightarrow> Inr v)"

fun py_len :: "'f pyval \<Rightarrow> exn + int" where
  "py_len (PList xs) = Inr (int (length xs))"
| "py_len (PDict kvs) = Inr (int (length (remdups (map fst kvs))))"
| "py_len (PStr s) = Inr (int (length s))"
| "py_len _ = Inl TypeError"

section \<open>The environment and the checker's state\<close>

text \<open>
  Everything outside the process is an oracle indexed by the number of effects performed
  so far (the length of the trace): the answers of \<^verbatim>\<open>session.get\<close>, the clock,
  whether a sleep is interrupted, whether writing the output file succeeds. The HTML
  parser and the two validity checks of \<^verbatim>\<open>urllib.parse\<close> that need Unicode tables
  or an IP-address parser are parameters too. Logging is left out.
\<close>

record 'f response =
  status_code :: int
  resp_text :: string
  resp_json :: "'f pyval option"
  elapsed_total_seconds :: 'f

datatype 'f http_result = Response "'f response" | Raises exn

datatype write_outcome = Written | OpenFailed exn | DumpFailed exn

record 'f env =
  session_get :: "nat \<Rightarrow> string \<Rightarrow> 'f http_result"
  now_isoformat :: "nat \<Rightarrow> string"
  sleep_raises :: "nat \<Rightarrow> exn option"
  write_result :: "nat \<Rightarrow> write_outcome"
  link_list_of :: "string \<Rightarrow> (string \<times> string) list option"
  netloc_valid :: "string \<Rightarrow> bool"

text \<open>
  The output file: absent, present but unreadable (\<^verbatim>\<open>open\<close> raises IOError), present
  but not JSON, or holding the value \<^verbatim>\<open>json.load\<close> returns.
\<close>

datatype 'f file_content = NoFile | Unreadable | NotJson | Doc "'f pyval"

datatype 'f event =
    TorCheck
  | FetchPage int
  | ProbeSite string
  | Sleep int int
  | WriteDoc "'f pyval" write_outcome

record 'f checker =
  accessible_sites :: "'f pyval"
  out_file :: "'f file_content"
  trace :: "'f event list"

definition tick :: "'f checker \<Rightarrow> nat" where
  "tick st = length (trace st)"

definition emit :: "'f event \<Rightarrow> 'f checker \<Rightarrow> 'f checker" where
  "emit ev st = st\<lparr>trace := trace st @ [ev]\<rparr>"

section \<open>Persistence store\<close>

fun load_existing_sites :: "'f file_content \<Rightarrow> 'f pyval" where
  "load_existing_sites NoFile = PList []"
| "load_existing_sites Unreadable = PList []"
| "load_existing_sites NotJson = PList []"
| "load_existing_sites (Doc (PDict kvs)) =
     (case map_of kvs ''accessible_sites'' of Some v \<Rightarrow> v | None \<Rightarrow> PList [])"
| "load_existing_sites (Doc (PList xs)) = PList xs"
| "load_existing_sites (Doc _) = PList []"

definition init_checker :: "'f file_content \<Rightarrow> 'f checker" where
  "init_checker f = \<lparr>accessible_sites = load_existing_sites f, out_file = f, trace = []\<rparr>"

text \<open>The dict literal of \<^verbatim>\<open>save_sites\<close>.\<close>

definition save_data :: "string \<Rightarrow> int \<Rightarrow> 'f pyval \<Rightarrow> 'f pyval" where
  "save_data now n sites =
     PDict [(''last_updated'', PStr now), (''total_accessible_sites'', PInt n),
            (''accessible_sites'', sites)]"

text \<open>
  \<^verbatim>\<open>save_sites\<close>: \<^verbatim>\<open>len\<close> is taken outside the \<^verbatim>\<open>try\<close>; only IOError is caught.
  A failure of \<^verbatim>\<open>open\<close> leaves the file as it was, a failure while dumping leaves a
  truncated text.
\<close>

definition save_sites :: "'f env \<Rightarrow> 'f checker \<Rightarrow> (exn + unit) \<times> 'f checker" where
  "save_sites env st =
     (case py_len (accessible_sites st) of
        Inl e \<Rightarrow> (Inl e, st)
      | Inr n \<Rightarrow>
          let data = save_data (now_isoformat env (tick st)) n (accessible_sites st);
              w = write_result env (tick st);
              st1 = emit (WriteDoc data w) st
          in (case w of
                Written \<Rightarrow> (Inr (), st1\<lparr>out_file := Doc data\<rparr>)
              | OpenFailed e \<Rightarrow> (if e = IOError then Inr () else Inl e, st1)
              | DumpFailed e \<Rightarrow>
                  (if e = IOError then Inr () else Inl e, st1\<lparr>out_file := NotJson\<rparr>)))"

section \<open>Listing fetcher\<close>

definition base_url :: string where
  "base_url = ''http://jptvwdeyknkv6oiwjtr2kxzehfnmcujl7rf7vytaikmwlvze773uiyyd.onion/''"

definition listing_url :: "int \<Rightarrow> string" where
  "listing_url page_number = base_url @ ''?page='' @ str_int page_number"

definition test_tor_connection :: "'f env \<Rightarrow> 'f checker \<Rightarrow> (exn + bool) \<times> 'f checker" where
  "test_tor_connection env st =
     (let st1 = emit TorCheck st in
      case session_get env (tick st) ''http://httpbin.org/ip'' of
        Raises e \<Rightarrow> (if is_Exception e then Inr False else Inl e, st1)
      | Response r \<Rightarrow>
          if status_code r = 200 then
            (case resp_json r of
               Some (PDict ip_info) \<Rightarrow> (Inr True, st1)
             | _ \<Rightarrow> (Inr False, st1))
          else (Inr False, st1))"

definition fetch_onion_listing_page ::
  "'f env \<Rightarrow> int \<Rightarrow> 'f checker \<Rightarrow> (exn + string option) \<times> 'f checker" where
  "fetch_onion_listing_page env page_number st =
     (let st1 = emit (FetchPage page_number) st in
      case session_get env (tick st) (listing_url page_number) of
        Raises e \<Rightarrow> (if is_Exception e then Inr None else Inl e, st1)
      | Response r \<Rightarrow>
          if status_code r = 200 then (Inr (Some (resp_text r)), st1) else (Inr None, st1))"

section \<open>Entry extractor\<close>

text \<open>
  The network-location component that \<^verbatim>\<open>urlparse\<close> returns, after CPython 3.11's
  \<^verbatim>\<open>urllib.parse.urlsplit\<close>: leading control characters and spaces are stripped, tabs
  and line breaks removed, a scheme is split off at the first colon when everything before
  it is a scheme character and the first character is a letter, and after \<^verbatim>\<open>//\<close> the
  netloc runs to the first of \<^verbatim>\<open>/ ? #\<close>. An unmatched bracket raises ValueError; a
  bracketed host and a non-ASCII netloc are passed to the library's validity checks.
\<close>

definition scheme_chars :: string where
  "scheme_chars = ''abcdefghijklmnopqrstuvwxyzABCDEFGHIJKLMNOPQRSTUVWXYZ0123456789+-.''"

definition ascii_letters :: string where
  "ascii_letters = ''abcdefghijklmnopqrstuvwxyzABCDEFGHIJKLMNOPQRSTUVWXYZ''"

definition split_scheme :: "string \<Rightarrow> string" where
  "split_scheme url =
     (let pre = takeWhile (\<lambda>c. c \<noteq> CHR '':'') url in
      if CHR '':'' \<in> set url \<and> pre \<noteq> [] \<and> hd url \<in> set ascii_letters
         \<and> (\<forall>c \<in> set pre. c \<in> set scheme_chars)
      then drop (length pre + 1) url else url)"

definition urlparse_netloc :: "(string \<Rightarrow> bool) \<Rightarrow> string \<Rightarrow> exn + string" where
  "urlparse_netloc valid url0 =
     (let url1 = dropWhile (\<lambda>c. of_char c \<le> (32::nat)) url0;
          url2 = filter (\<lambda>c. c \<notin> set [CHR 0x09, CHR 0x0D, CHR 0x0A]) url1;
          url3 = split_scheme url2
      in if take 2 url3 = ''//'' then
           (let netloc = takeWhile (\<lambda>c. c \<notin> set ''/?#'') (drop 2 url3);
                lb = CHR ''['' \<in> set netloc; rb = CHR '']'' \<in> set netloc
            in if (lb \<and> \<not> rb) \<or> (rb \<and> \<not> lb) then Inl ValueError
               else if ((lb \<and> rb) \<or> (\<exists>c \<in> set netloc. 128 \<le> (of_char c :: nat)))
                       \<and> \<not> valid netloc then Inl ValueError
               else Inr netloc)
         else Inr [])"

text \<open>The dict literal appended by \<^verbatim>\<open>extract_onion_sites\<close>.\<close>

type_synonym 'f site_info = "(string \<times> 'f pyval) list"

definition candidate :: "string \<Rightarrow> string \<Rightarrow> string \<Rightarrow> 'f site_info" where
  "candidate onion_domain href txt =
     [(''domain'', PStr onion_domain), (''url'', PStr href), (''text'', PStr txt)]"

text \<open>One pass of the loop body over a link, given as its href and its visible text.\<close>

definition extract_link :: "(string \<Rightarrow> bool) \<Rightarrow> string \<times> string \<Rightarrow> exn + 'f site_info option" where
  "extract_link valid link =
     (let href = fst link in
      if endswith href ''.onion'' \<or> str_contains ''.onion/'' href then
        (let href1 = (if \<not> startswith href ''http''
                      then ''http://'' @ lstrip_chars ''/'' href else href) in
         case urlparse_netloc valid href1 of
           Inl e \<Rightarrow> Inl e
         | Inr onion_domain \<Rightarrow>
             if onion_domain \<noteq> [] \<and> endswith onion_domain ''.onion''
             then Inr (Some (candidate onion_domain href1 (strip (snd link))))
             else Inr None)
      else Inr None)"

fun extract_links ::
  "(string \<Rightarrow> bool) \<Rightarrow> (string \<times> string) list \<Rightarrow> 'f site_info list \<Rightarrow> exn + 'f site_info list" where
  "extract_links valid [] onion_sites = Inr onion_sites"
| "extract_links valid (link # links) onion_sites =
     (case extract_link valid link of
        Inl e \<Rightarrow> Inl e
      | Inr None \<Rightarrow> extract_links valid links onion_sites
      | Inr (Some site) \<Rightarrow> extract_links valid links (onion_sites @ [site]))"

definition extract_onion_sites :: "'f env \<Rightarrow> string \<Rightarrow> exn + 'f site_info list" where
  "extract_onion_sites env html_content =
     (case link_list_of env html_content of
        None \<Rightarrow> Inr []
      | Some links \<Rightarrow> extract_links (netloc_valid env) links [])"

section \<open>Reachability prober\<close>

text \<open>
  \<^verbatim>\<open>existing_site['domain']\<close>: only a dict can be subscripted with a string, and the key
  has to be there.
\<close>

fun getitem_domain :: "'f pyval \<Rightarrow> exn + 'f pyval" where
  "getitem_domain (PDict d) = dict_getitem d ''domain''"
| "getitem_domain _ = Inl TypeError"

text \<open>
  The scan of \<^verbatim>\<open>self.accessible_sites\<close>: \<open>Inr True\<close> when a site with the domain is
  found. The comparison is Python's \<^verbatim>\<open>==\<close>, which is equality of values whenever one
  side is a string, as every domain the extractor emits is.
\<close>

fun scan_sites :: "'f pyval list \<Rightarrow> 'f pyval \<Rightarrow> exn + bool" where
  "scan_sites [] domain = Inr False"
| "scan_sites (existing_site # rest) domain =
     (case getitem_domain existing_site of
        Inl e \<Rightarrow> Inl e
      | Inr d \<Rightarrow> if d = domain then Inr True else scan_sites rest domain)"

text \<open>
  Iterating a value that is no list: an empty dict or string gives no element, a
  non-empty one gives strings, whose subscript raises; anything else is not iterable.
\<close>

fun already_tested :: "'f pyval \<Rightarrow> 'f pyval \<Rightarrow> exn + bool" where
  "already_tested (PList sites) domain = scan_sites sites domain"
| "already_tested (PDict kvs) domain = (if kvs = [] then Inr False else Inl TypeError)"
| "already_tested (PStr s) domain = (if s = [] then Inr False else Inl TypeError)"
| "already_tested _ domain = Inl TypeError"

text \<open>
  \<^verbatim>\<open>test_onion_site_accessibility\<close> returns its verdict together with \<^verbatim>\<open>site_info\<close>,
  which it mutates on success. A url that is no string makes \<^verbatim>\<open>session.get\<close> raise
  before anything is sent, which the last handler turns into False.
\<close>

definition test_onion_site_accessibility ::
  "'f env \<Rightarrow> 'f site_info \<Rightarrow> 'f checker \<Rightarrow> (exn + bool \<times> 'f site_info) \<times> 'f checker" where
  "test_onion_site_accessibility env site_info st =
     (case dict_getitem site_info ''url'' of
        Inl e \<Rightarrow> (Inl e, st)
      | Inr url \<Rightarrow>
     (case dict_getitem site_info ''domain'' of
        Inl e \<Rightarrow> (Inl e, st)
      | Inr domain \<Rightarrow>
     (case already_tested (accessible_sites st) domain of
        Inl e \<Rightarrow> (Inl e, st)
      | Inr True \<Rightarrow> (Inr (False, site_info), st)
      | Inr False \<Rightarrow>
     (case url of
        PStr u \<Rightarrow>
          (let st1 = emit (ProbeSite u) st in
           case session_get env (tick st) u of
             Raises e \<Rightarrow>
               (if is_Exception e then Inr (False, site_info) else Inl e, st1)
           | Response r \<Rightarrow>
               if status_code r = 200 then
                 (Inr (True,
                    AList.update ''response_time'' (PFloat (elapsed_total_seconds r))
                      (AList.update ''tested_at'' (PStr (now_isoformat env (tick st1)))
                        (AList.update ''status'' (PStr ''accessible'') site_info))), st1)
               else (Inr (False, site_info), st1))
      | _ \<Rightarrow> (Inr (False, site_info), st)))))"

section \<open>Crawl driver\<close>

record loop_vars =
  page_number :: int
  pages_checked :: int
  sites_found :: int
  sites_accessible :: int

text \<open>\<^verbatim>\<open>self.accessible_sites.append(site_info)\<close>: only a list has \<^verbatim>\<open>append\<close>.\<close>

fun append_site :: "'f pyval \<Rightarrow> 'f site_info \<Rightarrow> exn + 'f pyval" where
  "append_site (PList sites) site_info = Inr (PList (sites @ [PDict site_info]))"
| "append_site _ site_info = Inl AttributeError"

text \<open>\<^verbatim>\<open>time.sleep(random.uniform(lo, hi))\<close>.\<close>

definition sleep_uniform :: "'f env \<Rightarrow> int \<times> int \<Rightarrow> 'f checker \<Rightarrow> (exn + unit) \<times> 'f checker" where
  "sleep_uniform env bounds st =
     (case sleep_raises env (tick st) of
        Some e \<Rightarrow> (Inl e, emit (Sleep (fst bounds) (snd bounds)) st)
      | None \<Rightarrow> (Inr (), emit (Sleep (fst bounds) (snd bounds)) st))"

text \<open>The body of \<^verbatim>\<open>for site_info in onion_sites\<close> for one site.\<close>

definition test_site ::
  "'f env \<Rightarrow> int \<times> int \<Rightarrow> 'f site_info \<Rightarrow> loop_vars \<Rightarrow> 'f checker
     \<Rightarrow> (exn + unit) \<times> loop_vars \<times> 'f checker" where
  "test_site env delay_range site_info v st =
     (case test_onion_site_accessibility env site_info st of
        (Inl e, st1) \<Rightarrow> (Inl e, v, st1)
      | (Inr (False, site_info1), st1) \<Rightarrow>
          (case sleep_uniform env delay_range st1 of (r, st2) \<Rightarrow> (r, v, st2))
      | (Inr (True, site_info1), st1) \<Rightarrow>
          (case append_site (accessible_sites st1) site_info1 of
             Inl e \<Rightarrow> (Inl e, v, st1)
           | Inr sites \<Rightarrow>
               (let v1 = v\<lparr>sites_accessible := sites_accessible v + 1\<rparr> in
                case save_sites env (st1\<lparr>accessible_sites := sites\<rparr>) of
                  (Inl e, st2) \<Rightarrow> (Inl e, v1, st2)
                | (Inr u, st2) \<Rightarrow>
                    (case sleep_uniform env delay_range st2 of (r, st3) \<Rightarrow> (r, v1, st3)))))"

fun test_sites ::
  "'f env \<Rightarrow> int \<times> int \<Rightarrow> 'f site_info list \<Rightarrow> loop_vars \<Rightarrow> 'f checker
     \<Rightarrow> (exn + unit) \<times> loop_vars \<times> 'f checker" where
  "test_sites env delay_range [] v st = (Inr (), v, st)"
| "test_sites env delay_range (site_info # rest) v st =
     (case test_site env delay_range site_info v st of
        (Inl e, v1, st1) \<Rightarrow> (Inl e, v1, st1)
      | (Inr u, v1, st1) \<Rightarrow> test_sites env delay_range rest v1 st1)"

text \<open>
  One iteration of \<^verbatim>\<open>while pages_checked < max_pages\<close>. \<^verbatim>\<open>not html_content\<close> holds
  for None and for the empty string.
\<close>

definition loop_body ::
  "'f env \<Rightarrow> int \<Rightarrow> int \<times> int \<Rightarrow> loop_vars \<Rightarrow> 'f checker
     \<Rightarrow> (exn + unit) \<times> loop_vars \<times> 'f checker" where
  "loop_body env max_pages delay_range v st =
     (case fetch_onion_listing_page env (page_number v) st of
        (Inl e, st1) \<Rightarrow> (Inl e, v, st1)
      | (Inr html_content, st1) \<Rightarrow>
          if html_content = None \<or> html_content = Some [] then
            (Inr (), v\<lparr>page_number := page_number v + 1\<rparr>, st1)
          else
            (case extract_onion_sites env (the html_content) of
               Inl e \<Rightarrow> (Inl e, v, st1)
             | Inr onion_sites \<Rightarrow>
                 (case test_sites env delay_range onion_sites
                         (v\<lparr>sites_found := sites_found v + int (length onion_sites)\<rparr>) st1 of
                    (Inl e, v1, st2) \<Rightarrow> (Inl e, v1, st2)
                  | (Inr u, v1, st2) \<Rightarrow>
                      (let v2 = v1\<lparr>pages_checked := pages_checked v1 + 1,
                                   page_number := page_number v1 + 1\<rparr> in
                       if pages_checked v2 < max_pages
                       then (case sleep_uniform env (15, 30) st2 of (r, st3) \<Rightarrow> (r, v2, st3))
                       else (Inr (), v2, st2)))))"

text \<open>
  The \<^verbatim>\<open>while\<close> loop with fuel: one unit per iteration, \<open>None\<close> when the fuel runs out
  with the condition still true. The result names the exception that left the loop, if
  one did.
\<close>

fun run_loop ::
  "nat \<Rightarrow> 'f env \<Rightarrow> int \<Rightarrow> int \<times> int \<Rightarrow> loop_vars \<Rightarrow> 'f checker
     \<Rightarrow> (exn option \<times> loop_vars \<times> 'f checker) option" where
  "run_loop 0 env max_pages delay_range v st =
     (if pages_checked v < max_pages then None else Some (None, v, st))"
| "run_loop (Suc fuel) env max_pages delay_range v st =
     (if pages_checked v < max_pages then
        (case loop_body env max_pages delay_range v st of
           (Inl e, v1, st1) \<Rightarrow> Some (Some e, v1, st1)
         | (Inr u, v1, st1) \<Rightarrow> run_loop fuel env max_pages delay_range v1 st1)
      else Some (None, v, st))"

definition initial_vars :: "int \<Rightarrow> loop_vars" where
  "initial_vars start_page =
     \<lparr>page_number = start_page, pages_checked = 0, sites_found = 0, sites_accessible = 0\<rparr>"

text \<open>
  \<^verbatim>\<open>run_checker\<close>: the connectivity check is outside the \<^verbatim>\<open>try\<close>; the two handlers
  swallow whatever left the loop, and \<^verbatim>\<open>finally\<close> saves. What the final save raises
  leaves the function.
\<close>

definition run_checker ::
  "nat \<Rightarrow> 'f env \<Rightarrow> int \<Rightarrow> int \<Rightarrow> int \<times> int \<Rightarrow> 'f checker \<Rightarrow> ((exn + unit) \<times> 'f checker) option" where
  "run_checker fuel env start_page max_pages delay_range st =
     (case test_tor_connection env st of
        (Inl e, st1) \<Rightarrow> Some (Inl e, st1)
      | (Inr False, st1) \<Rightarrow> Some (Inr (), st1)
      | (Inr True, st1) \<Rightarrow>
          (case run_loop fuel env max_pages delay_range (initial_vars start_page) st1 of
             None \<Rightarrow> None
           | Some (left_by, v, st2) \<Rightarrow> Some (save_sites env st2)))"

section \<open>Notions used by the properties\<close>

text \<open>The events a call added to the trace, and a field of a written document.\<close>

definition new_events :: "'f checker \<Rightarrow> 'f checker \<Rightarrow> 'f event list" where
  "new_events st st' = drop (length (trace st)) (trace st')"

fun doc_field :: "'f pyval \<Rightarrow> string \<Rightarrow> 'f pyval option" where
  "doc_field (PDict kvs) k = map_of kvs k"
| "doc_field _ k = None"

text \<open>
  The address of a stored site is its \<^verbatim>\<open>domain\<close>, when it has one; the known addresses
  of a list of sites are those, in order.
\<close>

definition site_domain :: "'f pyval \<Rightarrow> 'f pyval option" where
  "site_domain s = (case getitem_domain s of Inr v \<Rightarrow> Some v | Inl e \<Rightarrow> None)"

definition known_domains :: "'f pyval list \<Rightarrow> 'f pyval list" where
  "known_domains sites = List.map_filter site_domain sites"

fun unique_addresses :: "'f pyval \<Rightarrow> bool" where
  "unique_addresses (PList sites) = distinct (known_domains sites)"
| "unique_addresses _ = True"

text \<open>
  A persisted snapshot is a document handed to the file; its entries are what
  \<open>load_existing_sites\<close> reads back from it.
\<close>

fun snapshot_ok :: "'f event \<Rightarrow> bool" where
  "snapshot_ok (WriteDoc data w) = unique_addresses (load_existing_sites (Doc data))"
| "snapshot_ok _ = True"

definition inv :: "'f checker \<Rightarrow> bool" where
  "inv st = (unique_addresses (accessible_sites st)
           \<and> unique_addresses (load_existing_sites (out_file st))
           \<and> list_all snapshot_ok (trace st))"


text \<open>
  A fetch of page \<open>p\<close> answered at time \<open>t\<close> fails when
  \<^verbatim>\<open>fetch_onion_listing_page\<close> returns None or the driver sees an empty text.
\<close>

definition page_unavailable :: "'f env \<Rightarrow> nat \<Rightarrow> int \<Rightarrow> bool" where
  "page_unavailable env t p =
     (case session_get env t (listing_url p) of
        Raises e \<Rightarrow> is_Exception e
      | Response r \<Rightarrow> status_code r \<noteq> 200 \<or> resp_text r = [])"

text \<open>
  The variant of the loop when fetches fail only for the page numbers in \<open>bad\<close>: pages
  still to be counted, plus failing pages still ahead.
\<close>

definition remaining :: "int \<Rightarrow> int list \<Rightarrow> loop_vars \<Rightarrow> nat" where
  "remaining max_pages bad v =
     nat (max_pages - pages_checked v) + length (filter (\<lambda>p. page_number v \<le> p) bad)"

section \<open>Concrete environments\<close>

definition ok_response :: "int response" where
  "ok_response = \<lparr>status_code = 200, resp_text = ''<html>'',
     resp_json = Some (PDict [(''origin'', PStr ''10.0.0.1'')]), elapsed_total_seconds = 2\<rparr>"

definition demo_links :: "(string \<times> string) list" where
  "demo_links = [(''abc.onion'', '' Abc ''), (''notonion.com'', ''Not'')]"

text \<open>Everything answers with 200, every page lists \<open>demo_links\<close>.\<close>

definition demo_env :: "int env" where
  "demo_env = \<lparr>session_get = (\<lambda>t url. Response ok_response),
     now_isoformat = (\<lambda>t. ''2024-01-01T00:00:00''),
     sleep_raises = (\<lambda>t. None),
     write_result = (\<lambda>t. Written),
     link_list_of = (\<lambda>html. Some demo_links),
     netloc_valid = (\<lambda>netloc. True)\<rparr>"

text \<open>Pages without the container; the second and third request are answered 404.\<close>

definition flaky_env :: "int env" where
  "flaky_env = demo_env\<lparr>
     session_get := (\<lambda>t url. if t = 1 \<or> t = 2
                              then Response (ok_response\<lparr>status_code := 404\<rparr>)
                              else Response ok_response),
     link_list_of := (\<lambda>html. None)\<rparr>"

text \<open>The first sleep is interrupted; a page whose link has an unmatched bracket.\<close>

definition interrupt_env :: "int env" where
  "interrupt_env = demo_env\<lparr>sleep_raises := (\<lambda>t. Some KeyboardInterrupt)\<rparr>"

definition bracket_env :: "int env" where
  "bracket_env = demo_env\<lparr>link_list_of := (\<lambda>html. Some [(''http://[abc.onion'', ''x'')])\<rparr>"

definition abc_site :: "int pyval" where
  "abc_site = PDict (candidate ''abc.onion'' ''http://abc.onion'' ''Abc'')"

definition dup_file :: "int file_content" where
  "dup_file = Doc (PList [abc_site, abc_site])"

text \<open>Pages without the container; the listing answers 404 for page 1 only.\<close>

definition pageone_env :: "int env" where
  "pageone_env = demo_env\<lparr>
     session_get := (\<lambda>t url. if url = listing_url 1
                              then Response (ok_response\<lparr>status_code := 404\<rparr>)
                              else Response ok_response),
     link_list_of := (\<lambda>html. None)\<rparr>"

definition pageone_loop_end :: "int checker" where
  "pageone_loop_end = \<lparr>accessible_sites = PList [], out_file = NoFile,
     trace = [TorCheck, FetchPage 1, FetchPage 2]\<rparr>"

text \<open>A checker that already holds one site, and what saving it gives.\<close>

definition abc_checker :: "int checker" where
  "abc_checker = \<lparr>accessible_sites = PList [abc_site], out_file = NoFile, trace = []\<rparr>"

definition abc_doc :: "int pyval" where
  "abc_doc = save_data ''2024-01-01T00:00:00'' 1 (PList [abc_site])"

definition abc_saved :: "int checker" where
  "abc_saved = \<lparr>accessible_sites = PList [abc_site], out_file = Doc abc_doc,
     trace = [WriteDoc abc_doc Written]\<rparr>"

text \<open>A run that starts from the legacy document holding that site, over one page.\<close>

definition abc_file :: "int file_content" where
  "abc_file = Doc (PList [abc_site])"

definition rerun_final :: "int checker" where
  "rerun_final = \<lparr>accessible_sites = PList [abc_site], out_file = Doc abc_doc,
     trace = [TorCheck, FetchPage 1, Sleep 5 15, WriteDoc abc_doc Written]\<rparr>"

text \<open>A run from no file over one page of \<open>demo_env\<close>.\<close>

definition probed_site :: "int site_info" where
  "probed_site = candidate ''abc.onion'' ''http://abc.onion'' ''Abc'' @
     [(''status'', PStr ''accessible''), (''tested_at'', PStr ''2024-01-01T00:00:00''),
      (''response_time'', PFloat 2)]"

definition demo_doc :: "int pyval" where
  "demo_doc = save_data ''2024-01-01T00:00:00'' 1 (PList [PDict probed_site])"

definition demo_loop_end :: "int checker" where
  "demo_loop_end = \<lparr>accessible_sites = PList [PDict probed_site], out_file = Doc demo_doc,
     trace = [TorCheck, FetchPage 1, ProbeSite ''http://abc.onion'', WriteDoc demo_doc Written,
              Sleep 5 15]\<rparr>"

definition demo_final :: "int checker" where
  "demo_final = demo_loop_end\<lparr>trace := trace demo_loop_end @ [WriteDoc demo_doc Written]\<rparr>"

definition bracket_loop_end :: "int checker" where
  "bracket_loop_end = \<lparr>accessible_sites = PList [], out_file = NoFile,
     trace = [TorCheck, FetchPage 1]\<rparr>"

definition empty_doc :: "int pyval" where
  "empty_doc = save_data ''2024-01-01T00:00:00'' 0 (PList [])"

section \<open>Evaluating the model\<close>

lemmas env_defs = demo_env_def flaky_env_def interrupt_env_def bracket_env_def ok_response_def
  demo_links_def abc_site_def dup_file_def abc_checker_def abc_doc_def abc_saved_def
  abc_file_def rerun_final_def probed_site_def demo_doc_def demo_loop_end_def demo_final_def
  bracket_loop_end_def empty_doc_def pageone_env_def pageone_loop_end_def

lemmas run_defs = run_checker_def test_tor_connection_def initial_vars_def loop_body_def
  fetch_onion_listing_page_def extract_onion_sites_def extract_link_def test_site_def
  test_onion_site_accessibility_def sleep_uniform_def save_sites_def save_data_def
  init_checker_def emit_def tick_def candidate_def dict_getitem_def is_Exception_def
  endswith_def startswith_def lstrip_chars_def strip_def whitespace_def
  urlparse_netloc_def split_scheme_def scheme_chars_def ascii_letters_def Let_def

section \<open>Persistence store: loading and saving\<close>

text \<open>
  C10. A document that parses as a JSON object without the key
  \<^verbatim>\<open>accessible_sites\<close> loads as the empty list, although nothing failed.
\<close>

theorem load_object_without_entries:
  "map_of kvs ''accessible_sites'' = None \<Longrightarrow> load_existing_sites (Doc (PDict kvs)) = PList []"
  by simp

theorem load_object_without_entries_witness:
  "map_of [(''sites'', PList [abc_site])] ''accessible_sites'' = None
   \<and> load_existing_sites (Doc (PDict [(''sites'', PList [abc_site])])) = PList []"
  using load_object_without_entries [of "[(''sites'', PList [abc_site])]"] by simp

lemma load_save_data [simp]: "load_existing_sites (Doc (save_data now n sites)) = sites"
  by (simp add: save_data_def)

text \<open>
  C3. Whatever the in-memory set is, a document that \<open>save_sites\<close> hands to the file
  carries the set itself under \<^verbatim>\<open>accessible_sites\<close> and its \<^verbatim>\<open>len\<close> under
  \<^verbatim>\<open>total_accessible_sites\<close>: the length of the list when the set is a list. When the
  write succeeds the file holds that document.
\<close>

theorem save_sites_total_count:
  assumes "save_sites env st = (r, st')"
    and "WriteDoc data w \<in> set (new_events st st')"
  shows "doc_field data ''accessible_sites'' = Some (accessible_sites st)
       \<and> (\<exists>n. doc_field data ''total_accessible_sites'' = Some (PInt n)
              \<and> py_len (accessible_sites st) = Inr n
              \<and> (\<forall>entries. accessible_sites st = PList entries \<longrightarrow> n = int (length entries)))
       \<and> (w = Written \<longrightarrow> out_file st' = Doc data)"
  using assms
  by (auto simp: save_sites_def new_events_def emit_def save_data_def Let_def
           split: sum.splits write_outcome.splits if_splits)

theorem save_sites_total_count_witness:
  "save_sites demo_env abc_checker = (Inr (), abc_saved)
   \<and> doc_field abc_doc ''accessible_sites'' = Some (PList [abc_site])
   \<and> doc_field abc_doc ''total_accessible_sites'' = Some (PInt 1)
   \<and> out_file abc_saved = Doc abc_doc"
proof -
  have h1: "save_sites demo_env abc_checker = (Inr (), abc_saved)"
    by (simp add: env_defs run_defs)
  have h2: "WriteDoc abc_doc Written \<in> set (new_events abc_checker abc_saved)"
    by (simp add: new_events_def abc_checker_def abc_saved_def)
  from save_sites_total_count [OF h1 h2] show ?thesis
    using h1 by (auto simp: abc_checker_def)
qed

text \<open>
  C5. When the write succeeds, loading the file that \<open>save_sites\<close> wrote gives back the
  accumulated list, entry for entry; and a document that is a bare array loads as that
  array.
\<close>

theorem save_load_roundtrip:
  "(accessible_sites st = PList entries \<and> write_result env (tick st) = Written
      \<longrightarrow> load_existing_sites (out_file (snd (save_sites env st))) = accessible_sites st)
   \<and> load_existing_sites (Doc (PList entries)) = PList entries"
  by (auto simp: save_sites_def emit_def Let_def)

theorem save_load_roundtrip_witness:
  "load_existing_sites (out_file (snd (save_sites demo_env abc_checker))) = PList [abc_site]
   \<and> load_existing_sites (Doc (PList [abc_site])) = PList [abc_site]"
  using save_load_roundtrip [of abc_checker "[abc_site]" demo_env]
  by (simp add: abc_checker_def demo_env_def tick_def)

section \<open>Entry extractor\<close>







section \<open>Reachability prober\<close>

lemma known_domains_Nil [simp]: "known_domains [] = []"
  by (simp add: known_domains_def)


lemma scan_sites_False:
  "scan_sites sites d = Inr False \<Longrightarrow> d \<notin> set (known_domains sites)"
  by (induction sites)
     (auto simp: known_domains_def site_domain_def split: sum.splits if_splits)



text \<open>
  C9. A successful probe of a candidate entry returns the entry with its domain, url and
  text as they were, followed by exactly \<^verbatim>\<open>status\<close> (accessible), \<^verbatim>\<open>tested_at\<close> (the
  clock after the request) and \<^verbatim>\<open>response_time\<close> (the elapsed time of the response).
\<close>

theorem probe_success_fields:
  assumes "test_onion_site_accessibility env (candidate d u t) st = (Inr (True, site_info'), st')"
  shows "\<exists>r. session_get env (tick st) u = Response r \<and> status_code r = 200
     \<and> site_info' = candidate d u t @
          [(''status'', PStr ''accessible''),
           (''tested_at'', PStr (now_isoformat env (Suc (tick st)))),
           (''response_time'', PFloat (elapsed_total_seconds r))]"
  using assms
  by (auto simp: test_onion_site_accessibility_def candidate_def dict_getitem_def Let_def
                 tick_def emit_def
           split: sum.splits bool.splits http_result.splits if_splits)

theorem probe_success_fields_witness:
  "test_onion_site_accessibility demo_env
      (candidate ''abc.onion'' ''http://abc.onion'' ''Abc'') (init_checker NoFile)
     = (Inr (True, probed_site), emit (ProbeSite ''http://abc.onion'') (init_checker NoFile))
   \<and> session_get demo_env (tick (init_checker NoFile)) ''http://abc.onion'' = Response ok_response
   \<and> probed_site = candidate ''abc.onion'' ''http://abc.onion'' ''Abc'' @
        [(''status'', PStr ''accessible''),
         (''tested_at'', PStr (now_isoformat demo_env (Suc (tick (init_checker NoFile))))),
         (''response_time'', PFloat (elapsed_total_seconds ok_response))]"
proof -
  have h: "test_onion_site_accessibility demo_env
      (candidate ''abc.onion'' ''http://abc.onion'' ''Abc'') (init_checker NoFile)
     = (Inr (True, probed_site), emit (ProbeSite ''http://abc.onion'') (init_checker NoFile))"
    by (simp add: env_defs run_defs)
  from probe_success_fields [OF h] show ?thesis
    using h by (auto simp: demo_env_def)
qed

section \<open>Crawl driver: a failed fetch\<close>

text \<open>
  C8. When the fetch of page \<open>N\<close> returns None, the iteration adds the fetch and nothing
  else to the trace (no sleep, no probe, no write), leaves the set and the file alone, and
  the loop goes on with page \<open>N + 1\<close>.
\<close>

theorem fetch_failure_advances:
  assumes "fetch_onion_listing_page env (page_number v) st = (Inr None, st1)"
  shows "st1 = emit (FetchPage (page_number v)) st
       \<and> loop_body env max_pages delay_range v st
           = (Inr (), v\<lparr>page_number := page_number v + 1\<rparr>, st1)
       \<and> (pages_checked v < max_pages \<longrightarrow>
            run_loop (Suc fuel) env max_pages delay_range v st
              = run_loop fuel env max_pages delay_range (v\<lparr>page_number := page_number v + 1\<rparr>) st1)"
  using assms
  by (auto simp: loop_body_def fetch_onion_listing_page_def Let_def
           split: http_result.splits if_splits)

theorem fetch_failure_advances_witness:
  "fetch_onion_listing_page flaky_env (page_number (initial_vars 1))
      (emit TorCheck (init_checker NoFile))
     = (Inr None, emit (FetchPage 1) (emit TorCheck (init_checker NoFile)))
   \<and> loop_body flaky_env 1 (5, 15) (initial_vars 1) (emit TorCheck (init_checker NoFile))
     = (Inr (), (initial_vars 1)\<lparr>page_number := 2\<rparr>,
        emit (FetchPage 1) (emit TorCheck (init_checker NoFile)))
   \<and> run_loop (Suc 2) flaky_env 1 (5, 15) (initial_vars 1) (emit TorCheck (init_checker NoFile))
     = run_loop 2 flaky_env 1 (5, 15) ((initial_vars 1)\<lparr>page_number := 2\<rparr>)
         (emit (FetchPage 1) (emit TorCheck (init_checker NoFile)))"
proof -
  have h: "fetch_onion_listing_page flaky_env (page_number (initial_vars 1))
      (emit TorCheck (init_checker NoFile))
     = (Inr None, emit (FetchPage 1) (emit TorCheck (init_checker NoFile)))"
    by (simp add: env_defs run_defs)
  have p: "pages_checked (initial_vars 1) < 1"
    by (simp add: initial_vars_def)
  from fetch_failure_advances [OF h, of 1 "(5, 15)" 2] p show ?thesis
    using h by (simp add: initial_vars_def)
qed

section \<open>What each operation does to the state\<close>


lemma probe_effect:
  assumes "test_onion_site_accessibility env s st = (r, st')"
  shows "accessible_sites st' = accessible_sites st \<and> out_file st' = out_file st
       \<and> (st' = st \<or> (\<exists>u. st' = emit (ProbeSite u) st))
       \<and> (\<forall>s'. r = Inr (True, s') \<longrightarrow>
            (\<exists>d. dict_getitem s' ''domain'' = Inr d
                 \<and> already_tested (accessible_sites st) d = Inr False))"
  using assms
  by (auto simp: test_onion_site_accessibility_def Let_def emit_def dict_getitem_def update_conv'
           split: sum.splits bool.splits pyval.splits http_result.splits if_splits option.splits)

lemma fetch_effect:
  "fetch_onion_listing_page env p st = (r, st') \<Longrightarrow> st' = emit (FetchPage p) st"
  by (auto simp: fetch_onion_listing_page_def Let_def split: http_result.splits if_splits)

lemma sleep_effect:
  "sleep_uniform env b st = (r, st') \<Longrightarrow> st' = emit (Sleep (fst b) (snd b)) st"
  by (auto simp: sleep_uniform_def split: option.splits)

lemma tor_effect:
  "test_tor_connection env st = (r, st') \<Longrightarrow> st' = emit TorCheck st"
  by (auto simp: test_tor_connection_def Let_def
           split: http_result.splits if_splits option.splits pyval.splits)

section \<open>The accumulated set stays a list\<close>

lemma list_emit [simp]: "accessible_sites (emit ev st) = accessible_sites st"
  by (simp add: emit_def)





section \<open>Crawl driver: the final save\<close>



section \<open>Unique addresses in every snapshot\<close>

lemma inv_emit:
  "inv st \<Longrightarrow> snapshot_ok ev \<Longrightarrow> inv (emit ev st)"
  by (simp add: inv_def emit_def)

lemma inv_save_sites:
  "inv st \<Longrightarrow> save_sites env st = (r, st') \<Longrightarrow> inv st'"
  by (auto simp: save_sites_def inv_def emit_def Let_def
           split: sum.splits write_outcome.splits if_splits)

lemma inv_test_tor:
  "inv st \<Longrightarrow> test_tor_connection env st = (r, st') \<Longrightarrow> inv st'"
  by (auto dest!: tor_effect simp: inv_emit)

lemma inv_fetch:
  "inv st \<Longrightarrow> fetch_onion_listing_page env p st = (r, st') \<Longrightarrow> inv st'"
  by (auto dest!: fetch_effect simp: inv_emit)

lemma inv_sleep:
  "inv st \<Longrightarrow> sleep_uniform env b st = (r, st') \<Longrightarrow> inv st'"
  by (auto dest!: sleep_effect simp: inv_emit)

lemma inv_probe:
  "inv st \<Longrightarrow> test_onion_site_accessibility env s st = (r, st') \<Longrightarrow> inv st'"
  using probe_effect [of env s st r st'] by (auto simp: inv_emit)

lemma already_tested_False:
  "already_tested sites d = Inr False \<Longrightarrow> append_site sites s = Inr sites' \<Longrightarrow>
   \<exists>xs. sites = PList xs \<and> sites' = PList (xs @ [PDict s]) \<and> d \<notin> set (known_domains xs)"
  by (cases sites) (auto dest: scan_sites_False)

lemma known_domains_append:
  "known_domains (xs @ [PDict s]) =
     known_domains xs @ (case dict_getitem s ''domain'' of Inr d \<Rightarrow> [d] | Inl e \<Rightarrow> [])"
  by (auto simp: known_domains_def map_filter_def site_domain_def split: sum.splits)

lemma inv_append:
  assumes "inv st" "test_onion_site_accessibility env s st = (Inr (True, s'), st1)"
    "append_site (accessible_sites st1) s' = Inr sites"
  shows "inv (st1\<lparr>accessible_sites := sites\<rparr>)"
proof -
  from probe_effect [OF assms(2)] obtain d where
    e: "accessible_sites st1 = accessible_sites st"
    and d: "dict_getitem s' ''domain'' = Inr d"
    and a: "already_tested (accessible_sites st) d = Inr False"
    by auto
  from already_tested_False [OF a] assms(3) e obtain xs where
    x: "accessible_sites st = PList xs" "sites = PList (xs @ [PDict s'])"
       "d \<notin> set (known_domains xs)"
    by auto
  have "inv st1" using assms(1,2) by (rule inv_probe)
  then show ?thesis using x d e by (simp add: inv_def known_domains_append)
qed

lemma inv_test_site:
  assumes "inv st" "test_site env dr s v st = (r, v', st')"
  shows "inv st'"
proof (cases "test_onion_site_accessibility env s st")
  case (Pair pr st1)
  have i1: "inv st1" using assms(1) Pair by (rule inv_probe)
  show ?thesis
  proof (cases pr)
    case (Inl e)
    then show ?thesis using assms(2) Pair i1 by (simp add: test_site_def)
  next
    case (Inr res)
    obtain ok s' where res: "res = (ok, s')" by (cases res)
    show ?thesis
    proof (cases ok)
      case False
      then show ?thesis using assms(2) Pair Inr res i1
        by (auto simp: test_site_def split: prod.splits dest: inv_sleep)
    next
      case True
      show ?thesis
      proof (cases "append_site (accessible_sites st1) s'")
        case (Inl e)
        then show ?thesis using assms(2) Pair Inr res True i1 by (simp add: test_site_def)
      next
        case (Inr sites)
        have i2: "inv (st1\<lparr>accessible_sites := sites\<rparr>)"
          using assms(1) Pair \<open>pr = Inr res\<close> res True Inr by (auto intro: inv_append)
        obtain sr st2 where sv: "save_sites env (st1\<lparr>accessible_sites := sites\<rparr>) = (sr, st2)"
          by (cases "save_sites env (st1\<lparr>accessible_sites := sites\<rparr>)")
        have i3: "inv st2" using i2 sv by (rule inv_save_sites)
        show ?thesis using assms(2) Pair \<open>pr = Inr res\<close> res True Inr sv i3
          by (auto simp: test_site_def Let_def split: sum.splits prod.splits dest: inv_sleep)
      qed
    qed
  qed
qed

lemma inv_test_sites:
  "inv st \<Longrightarrow> test_sites env dr ss v st = (r, v', st') \<Longrightarrow> inv st'"
proof (induction ss arbitrary: v st)
  case Nil
  then show ?case by simp
next
  case (Cons s ss)
  obtain r1 v1 st1 where t: "test_site env dr s v st = (r1, v1, st1)"
    by (cases "test_site env dr s v st")
  have "inv st1" using Cons.prems(1) t by (rule inv_test_site)
  then show ?case using Cons.prems(2) t Cons.IH by (cases r1) auto
qed

lemma inv_loop_body:
  assumes "inv st" "loop_body env mp dr v st = (r, v', st')"
  shows "inv st'"
proof -
  obtain fr st1 where f: "fetch_onion_listing_page env (page_number v) st = (fr, st1)"
    by (cases "fetch_onion_listing_page env (page_number v) st")
  have i1: "inv st1" using assms(1) f by (rule inv_fetch)
  show ?thesis using assms(2) f i1
    by (auto simp: loop_body_def Let_def split: sum.splits prod.splits if_splits
             dest: inv_test_sites inv_sleep)
qed

lemma inv_run_loop:
  "inv st \<Longrightarrow> run_loop fuel env mp dr v st = Some (l, v', st') \<Longrightarrow> inv st'"
proof (induction fuel arbitrary: v st)
  case 0
  then show ?case by (auto split: if_splits)
next
  case (Suc fuel)
  show ?case
  proof (cases "pages_checked v < mp")
    case False
    then show ?thesis using Suc.prems by simp
  next
    case True
    obtain r1 v1 st1 where b: "loop_body env mp dr v st = (r1, v1, st1)"
      by (cases "loop_body env mp dr v st")
    have "inv st1" using Suc.prems(1) b by (rule inv_loop_body)
    then show ?thesis using Suc.prems(2) True b Suc.IH by (cases r1) auto
  qed
qed

text \<open>
  C2, as the code has it. If the entries of the loaded document have pairwise distinct
  addresses (as they have when there is no document), then every document a run hands to
  the file has entries with pairwise distinct addresses, and so has the file the run
  leaves behind: the next run starts from such a document again.
\<close>

theorem persisted_addresses_unique:
  assumes "unique_addresses (load_existing_sites f)"
    and "run_checker fuel env start_page max_pages delay_range (init_checker f) = Some (r, st')"
  shows "list_all snapshot_ok (trace st')
       \<and> unique_addresses (load_existing_sites (out_file st'))"
proof -
  have i0: "inv (init_checker f)" using assms(1) by (simp add: inv_def init_checker_def)
  obtain tr st1 where t: "test_tor_connection env (init_checker f) = (tr, st1)"
    by (cases "test_tor_connection env (init_checker f)")
  have i1: "inv st1" using i0 t by (rule inv_test_tor)
  have "inv st'" using assms(2) t i1
    by (auto simp: run_checker_def split: sum.splits bool.splits option.splits
             dest: inv_run_loop inv_save_sites)
  then show ?thesis by (simp add: inv_def)
qed

theorem persisted_addresses_unique_witness:
  "run_checker 1 demo_env 1 1 (5, 15) (init_checker abc_file) = Some (Inr (), rerun_final)
   \<and> list_all snapshot_ok (trace rerun_final)
   \<and> unique_addresses (load_existing_sites (out_file rerun_final))"
proof -
  have h1: "unique_addresses (load_existing_sites abc_file)"
    by (simp add: abc_file_def abc_site_def known_domains_def site_domain_def
          candidate_def dict_getitem_def)
  have h2: "run_checker 1 demo_env 1 1 (5, 15) (init_checker abc_file)
              = Some (Inr (), rerun_final)"
    by (simp add: env_defs run_defs)
  from persisted_addresses_unique [OF h1 h2] h2 show ?thesis by simp
qed

text \<open>
  C2 as the specification words it fails for a document that already holds an address twice: the run
  loads it as it is, skips the address on the page, and saves the two entries again.
\<close>

theorem duplicate_addresses_persisted:
  "map_option (list_all snapshot_ok \<circ> trace \<circ> snd)
     (run_checker 1 demo_env 1 1 (5, 15) (init_checker dup_file)) = Some False"
  by (simp add: env_defs run_defs known_domains_def site_domain_def)

section \<open>Termination of the crawl loop\<close>

text \<open>Distinct pages have distinct listing URLs, none of them the address of the connectivity check.\<close>

lemma str_nat_value: "foldl (\<lambda>a c. 10 * a + (of_char c - 48)) 0 (str_nat n) = n"
proof (induction n rule: str_nat.induct)
  case (1 n)
  show ?case
  proof (cases "n < 10")
    case True
    have "str_nat n = [char_of (48 + n)]" using True by (subst str_nat.simps) (simp only: if_True)
    then show ?thesis using True by simp
  next
    case False
    have s: "str_nat n = str_nat (n div 10) @ [char_of (48 + n mod 10)]"
      using False by (subst str_nat.simps) (simp only: if_False)
    have "n mod 10 < 10" by simp
    then have "of_char (char_of (48 + n mod 10)) = 48 + n mod 10"
      by simp
    then show ?thesis using False 1 by (simp only: s foldl_append foldl.simps) simp
  qed
qed


lemma str_nat_inj:
  assumes "str_nat m = str_nat n"
  shows "m = n"
proof -
  have "m = foldl (\<lambda>a c. 10 * a + (of_char c - 48)) 0 (str_nat m)"
    by (rule str_nat_value [symmetric])
  also have "\<dots> = foldl (\<lambda>a c. 10 * a + (of_char c - 48)) 0 (str_nat n)"
    by (simp only: assms)
  also have "\<dots> = n" by (rule str_nat_value)
  finally show ?thesis .
qed

lemma digit_not_minus: "k < 10 \<Longrightarrow> char_of (48 + k) \<noteq> CHR ''-''" for k :: nat
proof
  assume "k < 10" "char_of (48 + k) = CHR ''-''"
  then have "of_char (char_of (48 + k)) = (of_char CHR ''-'' :: nat)" by simp
  then show False using \<open>k < 10\<close> by simp
qed

lemma str_nat_digits: "CHR ''-'' \<notin> set (str_nat n)"
proof (induction n rule: str_nat.induct)
  case (1 n)
  show ?case
  proof (cases "n < 10")
    case True
    have "str_nat n = [char_of (48 + n)]" using True by (subst str_nat.simps) (simp only: if_True)
    then show ?thesis using digit_not_minus [OF True] by auto
  next
    case False
    have s: "str_nat n = str_nat (n div 10) @ [char_of (48 + n mod 10)]"
      using False by (subst str_nat.simps) (simp only: if_False)
    have "n mod 10 < 10" by simp
    from digit_not_minus [OF this] 1 False show ?thesis by (auto simp: s)
  qed
qed

lemma str_int_sign: "a < 0 \<Longrightarrow> \<not> b < 0 \<Longrightarrow> str_int a \<noteq> str_int b"
proof
  assume "a < 0" "\<not> b < 0" "str_int a = str_int b"
  then have "str_nat (nat b) = CHR ''-'' # str_nat (nat (- a))" by (simp add: str_int_def)
  then have "CHR ''-'' \<in> set (str_nat (nat b))" by simp
  then show False using str_nat_digits by blast
qed

lemma str_int_inj:
  assumes e: "str_int i = str_int j"
  shows "i = j"
proof (cases "i < 0")
  case True
  then have j: "j < 0" using str_int_sign [of i j] e by auto
  then have "str_nat (nat (- i)) = str_nat (nat (- j))" using True e by (simp add: str_int_def)
  then have "nat (- i) = nat (- j)" by (rule str_nat_inj)
  then show ?thesis using True j by simp
next
  case False
  then have j: "\<not> j < 0" using str_int_sign [of j i] e by auto
  then have "str_nat (nat i) = str_nat (nat j)" using False e by (simp add: str_int_def)
  then have "nat i = nat j" by (rule str_nat_inj)
  then show ?thesis using False j by simp
qed

lemma listing_url_eq: "(listing_url p = listing_url q) = (p = q)"
proof
  assume "listing_url p = listing_url q"
  then have "str_int p = str_int q" by (simp add: listing_url_def)
  then show "p = q" by (rule str_int_inj)
next
  assume "p = q"
  then show "listing_url p = listing_url q" by simp
qed

lemma tor_url: "''http://httpbin.org/ip'' \<noteq> listing_url p"
proof
  assume e: "''http://httpbin.org/ip'' = listing_url p"
  have "take 8 (listing_url p) = ''http://j''" by (simp add: listing_url_def base_url_def)
  then have "take 8 ''http://httpbin.org/ip'' = ''http://j''" by (simp only: e [symmetric])
  then show False by simp
qed

lemma pageone_bad: "\<forall>t p. page_unavailable pageone_env t p \<longrightarrow> p \<in> set [1]"
proof (intro allI impI)
  fix t p assume u: "page_unavailable pageone_env t p"
  have "p = 1"
  proof (rule ccontr)
    assume "p \<noteq> 1"
    then have "session_get pageone_env t (listing_url p) = Response ok_response"
      by (simp add: pageone_env_def demo_env_def listing_url_eq)
    then show False using u by (simp add: page_unavailable_def ok_response_def)
  qed
  then show "p \<in> set [1]" by simp
qed


lemma test_site_counters:
  "test_site env dr s v st = (r, v', st') \<Longrightarrow>
   page_number v' = page_number v \<and> pages_checked v' = pages_checked v"
  by (auto simp: test_site_def Let_def split: prod.splits sum.splits bool.splits)

lemma test_sites_counters:
  "test_sites env dr ss v st = (r, v', st') \<Longrightarrow>
   page_number v' = page_number v \<and> pages_checked v' = pages_checked v"
proof (induction ss arbitrary: v st)
  case Nil
  then show ?case by simp
next
  case (Cons s ss)
  obtain r1 v1 st1 where t: "test_site env dr s v st = (r1, v1, st1)"
    by (cases "test_site env dr s v st")
  from test_site_counters [OF t] Cons.prems t Cons.IH [of v1 st1]
  show ?case by (cases r1) auto
qed

lemma loop_body_progress:
  assumes "loop_body env mp dr v st = (Inr u, v1, st1)"
  shows "page_number v1 = page_number v + 1
       \<and> ((page_unavailable env (tick st) (page_number v) \<and> pages_checked v1 = pages_checked v)
          \<or> pages_checked v1 = pages_checked v + 1)"
proof -
  obtain fr st0 where f: "fetch_onion_listing_page env (page_number v) st = (fr, st0)"
    by (cases "fetch_onion_listing_page env (page_number v) st")
  show ?thesis
  proof (cases fr)
    case (Inl e)
    then show ?thesis using assms f by (simp add: loop_body_def)
  next
    case (Inr html)
    show ?thesis
    proof (cases "html = None \<or> html = Some []")
      case True
      have "page_unavailable env (tick st) (page_number v)"
        using f Inr True
        by (auto simp: fetch_onion_listing_page_def page_unavailable_def Let_def
                 split: http_result.splits if_splits)
      then show ?thesis using assms f Inr True by (auto simp: loop_body_def)
    next
      case False
      then show ?thesis using assms f Inr
        by (auto simp: loop_body_def Let_def split: sum.splits prod.splits if_splits
                 dest!: test_sites_counters)
    qed
  qed
qed

lemma remaining_decreases:
  assumes "\<forall>t p. page_unavailable env t p \<longrightarrow> p \<in> set bad"
    and "loop_body env mp dr v st = (Inr u, v1, st1)"
    and "pages_checked v < mp"
  shows "remaining mp bad v1 < remaining mp bad v"
proof -
  from loop_body_progress [OF assms(2)] have pn: "page_number v1 = page_number v + 1"
    and alt: "(page_unavailable env (tick st) (page_number v) \<and> pages_checked v1 = pages_checked v)
          \<or> pages_checked v1 = pages_checked v + 1" by auto
  have sub: "filter (\<lambda>p. page_number v + 1 \<le> p) bad
               = filter (\<lambda>p. page_number v + 1 \<le> p) (filter (\<lambda>p. page_number v \<le> p) bad)"
    by (auto intro: filter_cong)
  have le: "length (filter (\<lambda>p. page_number v + 1 \<le> p) bad)
              \<le> length (filter (\<lambda>p. page_number v \<le> p) bad)"
    by (subst sub) (rule length_filter_le)
  from alt show ?thesis
  proof
    assume a: "page_unavailable env (tick st) (page_number v) \<and> pages_checked v1 = pages_checked v"
    then have "page_number v \<in> set (filter (\<lambda>p. page_number v \<le> p) bad)"
      using assms(1) by auto
    then have "length (filter (\<lambda>p. page_number v + 1 \<le> p) (filter (\<lambda>p. page_number v \<le> p) bad))
                 < length (filter (\<lambda>p. page_number v \<le> p) bad)"
      by (rule length_filter_less) simp
    then show ?thesis using a pn sub by (simp add: remaining_def)
  next
    assume "pages_checked v1 = pages_checked v + 1"
    then show ?thesis using le pn assms(3) by (simp add: remaining_def)
  qed
qed

lemma run_loop_terminates:
  assumes "\<forall>t p. page_unavailable env t p \<longrightarrow> p \<in> set bad"
  shows "remaining mp bad v \<le> fuel \<Longrightarrow>
         \<exists>left_by v' st'. run_loop fuel env mp dr v st = Some (left_by, v', st')
            \<and> (left_by = None \<longrightarrow> mp \<le> pages_checked v')"
proof (induction fuel arbitrary: v st)
  case 0
  then have "\<not> pages_checked v < mp" by (simp add: remaining_def)
  then show ?case by simp
next
  case (Suc fuel)
  show ?case
  proof (cases "pages_checked v < mp")
    case False
    then show ?thesis by simp
  next
    case True
    obtain r1 v1 st1 where b: "loop_body env mp dr v st = (r1, v1, st1)"
      by (cases "loop_body env mp dr v st")
    show ?thesis
    proof (cases r1)
      case (Inl e)
      then show ?thesis using True b by simp
    next
      case (Inr u)
      from remaining_decreases [OF assms b [unfolded Inr] True] Suc.prems
      have "remaining mp bad v1 \<le> fuel" by simp
      from Suc.IH [OF this, of st1] show ?thesis using True b Inr by simp
    qed
  qed
qed

text \<open>A listing that never answers keeps the loop running: no amount of fuel ends it.\<close>

lemma run_loop_never_ends:
  assumes "\<forall>t p. page_unavailable env t p"
  shows "pages_checked v < mp \<Longrightarrow> run_loop fuel env mp dr v st = None"
proof (induction fuel arbitrary: v st)
  case 0
  then show ?case by simp
next
  case (Suc fuel)
  have "page_unavailable env (tick st) (page_number v)" using assms by simp
  then have "loop_body env mp dr v st
      = (Inr (), v\<lparr>page_number := page_number v + 1\<rparr>, emit (FetchPage (page_number v)) st)"
    by (auto simp: loop_body_def fetch_onion_listing_page_def page_unavailable_def Let_def
             split: http_result.splits)
  then show ?case using Suc by simp
qed

text \<open>
  C1, as the code has it. Only pages whose fetch succeeded count against the bound. If
  fetches fail only for the page numbers in \<open>bad\<close>, a run that passes the connectivity
  check leaves the loop within \<open>max_pages + length bad\<close> iterations, by the page bound
  or by an exception, and then saves.
\<close>

theorem crawl_loop_terminates:
  assumes "\<forall>t p. page_unavailable env t p \<longrightarrow> p \<in> set bad"
    and "test_tor_connection env st = (Inr True, st1)"
  shows "\<exists>left_by v st2.
           run_loop (nat max_pages + length bad) env max_pages delay_range
               (initial_vars start_page) st1 = Some (left_by, v, st2)
         \<and> (left_by = None \<longrightarrow> max_pages \<le> pages_checked v)
         \<and> run_checker (nat max_pages + length bad) env start_page max_pages delay_range st
             = Some (save_sites env st2)"
proof -
  have "remaining max_pages bad (initial_vars start_page) \<le> nat max_pages + length bad"
    by (simp add: remaining_def initial_vars_def le_trans [OF length_filter_le])
  from run_loop_terminates [OF assms(1) this, of delay_range st1]
  show ?thesis using assms(2) by (auto simp: run_checker_def)
qed

lemmas listing_urls = listing_url_eq tor_url

theorem crawl_loop_terminates_witness:
  "run_loop (nat 1 + length [1::int]) pageone_env 1 (5, 15) (initial_vars 1)
       (emit TorCheck (init_checker NoFile))
     = Some (None,
         \<lparr>page_number = 3, pages_checked = 1, sites_found = 0, sites_accessible = 0\<rparr>,
         pageone_loop_end)
   \<and> run_checker (nat 1 + length [1::int]) pageone_env 1 1 (5, 15) (init_checker NoFile)
     = Some (save_sites pageone_env pageone_loop_end)"
proof -
  have t: "test_tor_connection pageone_env (init_checker NoFile)
             = (Inr True, emit TorCheck (init_checker NoFile))"
    by (simp add: env_defs run_defs listing_urls)
  have l: "run_loop (nat 1 + length [1::int]) pageone_env 1 (5, 15) (initial_vars 1)
       (emit TorCheck (init_checker NoFile))
     = Some (None,
         \<lparr>page_number = 3, pages_checked = 1, sites_found = 0, sites_accessible = 0\<rparr>,
         pageone_loop_end)"
    by (simp add: env_defs run_defs listing_urls numeral_2_eq_2)
  from crawl_loop_terminates [OF pageone_bad t, of 1 "(5, 15)" 1] l
  show ?thesis by simp
qed

text \<open>
  C1 as the specification words it fails when a fetch fails: with \<open>max_pages = 1\<close> and the first two
  listing requests answered 404, two iterations do not end the loop, and the run performs
  three.
\<close>

theorem iterations_exceed_max_pages:
  "run_checker 2 flaky_env 1 1 (5, 15) (init_checker NoFile) = None
   \<and> map_option (trace \<circ> snd) (run_checker 3 flaky_env 1 1 (5, 15) (init_checker NoFile))
     = Some [TorCheck, FetchPage 1, FetchPage 2, FetchPage 3, WriteDoc empty_doc Written]"
  by (simp add: env_defs run_defs numeral_2_eq_2 numeral_3_eq_3)

end
